theory Spec2Isabelle
  imports Main
begin

section \<open>Python values\<close>

text \<open>
  A Python \<^verbatim>\<open>str\<close> is a sequence of Unicode code points. It is modelled as a
  list of natural numbers, one per code point, so that the tests the program and its
  libraries make on code points (ASCII or not, whitespace or not) are the ones Python
  makes. \<open>ord\<close> is Python's \<^verbatim>\<open>ord\<close> on the characters an Isabelle literal can
  hold, and \<open>u ''...''\<close> is the Python string with the text of the literal.
\<close>

type_synonym ustr = "nat list"

definition ord :: "char \<Rightarrow> nat" where
  "ord c = of_char c"

definition u :: "string \<Rightarrow> ustr" where
  "u s = map ord s"

text \<open>Truthiness of a string that may be \<^verbatim>\<open>None\<close>: neither \<^verbatim>\<open>None\<close> nor empty.\<close>

fun truthy :: "ustr option \<Rightarrow> bool" where
  "truthy None = False"
| "truthy (Some s) = (s \<noteq> [])"

text \<open>
  The values of the \<^verbatim>\<open>json\<close> module and of \<^verbatim>\<open>request.get_json\<close>. A float is
  kept as the decimal literal it was read from (floating-point arithmetic is never done
  on it by the program). A \<^verbatim>\<open>dict\<close> is the list of its items in insertion order, with
  distinct keys.
\<close>

datatype json =
    JNull
  | JBool bool
  | JInt int
  | JFloat ustr
  | JString ustr
  | JArray "json list"
  | JObject "(ustr \<times> json) list"

text \<open>The exceptions the handlers can meet, by class.\<close>

datatype exn =
    TypeError
  | AttributeError
  | KeyError
  | IndexError
  | JSONDecodeError
  | HTTPException nat
  | RequestException ustr

section \<open>Requests, responses and configuration\<close>

text \<open>
  What a handler reads of the Flask \<^verbatim>\<open>request\<close>: \<^verbatim>\<open>request.cookies.get\<close>,
  \<^verbatim>\<open>request.headers.get\<close> and the outcome of \<^verbatim>\<open>request.get_json()\<close>, which either raises
  (400 on a malformed body, 415 on a body that is not declared as JSON) or returns the
  parsed body.
\<close>

record request =
  cookies :: "ustr \<rightharpoonup> ustr"
  headers :: "ustr \<rightharpoonup> ustr"
  get_json :: "exn + json"

record cookie =
  cookie_name :: ustr
  cookie_value :: ustr
  max_age :: nat
  samesite :: ustr
  secure :: bool
  httponly :: bool

text \<open>
  A response body: \<open>Json j\<close> is \<^verbatim>\<open>jsonify(j)\<close>, \<open>ErrorOf e\<close> is
  \<^verbatim>\<open>jsonify({"error": str(e)})\<close> (the text of an exception's message is not modelled),
  \<open>Content s\<close> is any other payload (a served file).
\<close>

datatype body = Json json | ErrorOf exn | Content ustr

record response =
  status :: nat
  payload :: body
  set_cookies :: "cookie list"

text \<open>The process environment after \<^verbatim>\<open>load_dotenv()\<close>, read with \<^verbatim>\<open>os.getenv\<close>.\<close>

type_synonym env = "ustr \<rightharpoonup> ustr"

definition getenv :: "env \<Rightarrow> ustr \<Rightarrow> ustr \<Rightarrow> ustr" where
  "getenv e k d = (case e k of None \<Rightarrow> d | Some v \<Rightarrow> v)"

text \<open>
  \<^verbatim>\<open>str.lower\<close> on the ASCII letters. Python also maps non-ASCII letters, but to no
  letter of \<^verbatim>\<open>'true'\<close>, and the result is only ever compared with \<^verbatim>\<open>'true'\<close>.
\<close>

definition lower_cp :: "nat \<Rightarrow> nat" where
  "lower_cp c = (if 65 \<le> c \<and> c \<le> 90 then c + 32 else c)"

definition lower :: "ustr \<Rightarrow> ustr" where
  "lower s = map lower_cp s"

definition CSRF_COOKIE_SECURE :: "env \<Rightarrow> bool" where
  "CSRF_COOKIE_SECURE e = (lower (getenv e (u ''CSRF_COOKIE_SECURE'') (u ''false'')) = u ''true'')"

definition CSRF_COOKIE_NAME :: ustr where
  "CSRF_COOKIE_NAME = u ''csrf-token''"

definition OPENAI_API_KEY :: "env \<Rightarrow> ustr option" where
  "OPENAI_API_KEY e = e (u ''OPENAI_API_KEY'')"

definition OPENAI_MODEL :: "env \<Rightarrow> ustr" where
  "OPENAI_MODEL e = getenv e (u ''OPENAI_MODEL'') (u ''gpt-3.5-turbo'')"

section \<open>The CSRF guard\<close>

text \<open>
  \<^verbatim>\<open>secrets.compare_digest\<close> on two \<^verbatim>\<open>str\<close> arguments, as the standard library
  documents it: both must be ASCII only, otherwise it raises \<^verbatim>\<open>TypeError\<close>; on ASCII
  strings it answers whether they are equal (in time independent of the contents, which
  the model does not represent). An argument that is \<^verbatim>\<open>None\<close> is a
  \<^verbatim>\<open>TypeError\<close> as well.
\<close>

definition is_ascii :: "ustr \<Rightarrow> bool" where
  "is_ascii s = list_all (\<lambda>c. c < 128) s"

definition compare_digest :: "ustr option \<Rightarrow> ustr option \<Rightarrow> exn + bool" where
  "compare_digest a b =
     (case (a, b) of
        (Some x, Some y) \<Rightarrow> if is_ascii x \<and> is_ascii y then Inr (x = y) else Inl TypeError
      | _ \<Rightarrow> Inl TypeError)"

definition verify_csrf :: "request \<Rightarrow> bool" where
  "verify_csrf req =
     (let cookie_token = cookies req CSRF_COOKIE_NAME;
          header_token = headers req (u ''X-CSRF-Token'')
      in if \<not> truthy cookie_token \<or> \<not> truthy header_token then False
         else (case compare_digest cookie_token header_token of
                 Inr b \<Rightarrow> b
               | Inl e \<Rightarrow> False))"

text \<open>
  \<^verbatim>\<open>_new_csrf_token\<close> draws from the system's randomness. The generator is the
  sequence of the tokens that the successive calls of \<^verbatim>\<open>secrets.token_urlsafe(32)\<close>
  return; a call takes the first and leaves the rest.
\<close>

type_synonym rng = "nat \<Rightarrow> ustr"

definition new_csrf_token :: "rng \<Rightarrow> ustr \<times> rng" where
  "new_csrf_token g = (g 0, \<lambda>n. g (Suc n))"

text \<open>Python's \<^verbatim>\<open>a or b\<close> on optional strings.\<close>

definition py_or :: "ustr option \<Rightarrow> ustr option \<Rightarrow> ustr option" where
  "py_or a b = (if truthy a then a else b)"

definition csrf_cookie :: "env \<Rightarrow> ustr \<Rightarrow> cookie" where
  "csrf_cookie e token =
     \<lparr> cookie_name = CSRF_COOKIE_NAME,
       cookie_value = token,
       max_age = 7 * 24 * 60 * 60,
       samesite = u ''Lax'',
       secure = CSRF_COOKIE_SECURE e,
       httponly = False \<rparr>"

text \<open>\<^verbatim>\<open>resp.set_cookie\<close> adds one \<^verbatim>\<open>Set-Cookie\<close> header to the response.\<close>

definition set_cookie :: "response \<Rightarrow> cookie \<Rightarrow> response" where
  "set_cookie resp c = resp\<lparr>set_cookies := set_cookies resp @ [c]\<rparr>"

definition ensure_csrf_cookie ::
  "env \<Rightarrow> rng \<Rightarrow> request \<Rightarrow> response \<Rightarrow> ustr option \<Rightarrow> response \<times> rng" where
  "ensure_csrf_cookie e g req resp token =
     (case py_or token (cookies req CSRF_COOKIE_NAME) of
        None \<Rightarrow> (let (t, g') = new_csrf_token g in (set_cookie resp (csrf_cookie e t), g'))
      | Some t0 \<Rightarrow>
          if t0 = [] then (let (t, g') = new_csrf_token g in (set_cookie resp (csrf_cookie e t), g'))
          else (set_cookie resp (csrf_cookie e t0), g))"

definition jsonify :: "json \<Rightarrow> nat \<Rightarrow> response" where
  "jsonify j st = \<lparr> status = st, payload = Json j, set_cookies = [] \<rparr>"

text \<open>
  The pages: \<open>page\<close> is the response that \<^verbatim>\<open>send_file(html_path)\<close> built.
\<close>

definition index :: "env \<Rightarrow> rng \<Rightarrow> request \<Rightarrow> response \<Rightarrow> response \<times> rng" where
  "index e g req page = ensure_csrf_cookie e g req page None"

definition tutor_main :: "env \<Rightarrow> rng \<Rightarrow> request \<Rightarrow> response \<Rightarrow> response \<times> rng" where
  "tutor_main e g req page = ensure_csrf_cookie e g req page None"

definition csrf_token :: "env \<Rightarrow> rng \<Rightarrow> request \<Rightarrow> response \<times> rng" where
  "csrf_token e g req =
     (let (token, g1) =
            (if truthy (cookies req CSRF_COOKIE_NAME)
             then (case cookies req CSRF_COOKIE_NAME of Some c \<Rightarrow> (c, g) | None \<Rightarrow> new_csrf_token g)
             else new_csrf_token g);
          resp = jsonify (JObject [(u ''token'', JString token)]) 200
      in ensure_csrf_cookie e g1 req resp (Some token))"

section \<open>The standard library's JSON decoder\<close>

text \<open>
  \<^verbatim>\<open>json.loads\<close> on a \<^verbatim>\<open>str\<close>, after the standard library's \<^verbatim>\<open>json.decoder\<close> and
  \<^verbatim>\<open>json.scanner\<close>: the JSON grammar with the decoder's extensions (\<^verbatim>\<open>NaN\<close>,
  \<^verbatim>\<open>Infinity\<close>, \<^verbatim>\<open>-Infinity\<close>), strict strings (no raw control character), the last
  of several equal keys winning. A function answers the decoded value and the input left
  after it, or \<open>None\<close> where the decoder raises. The interpreter's resource limits
  (recursion depth, the length of an integer literal) are not modelled.
\<close>

definition is_ws :: "nat \<Rightarrow> bool" where
  "is_ws c = (c = 32 \<or> c = 9 \<or> c = 10 \<or> c = 13)"

definition skip_ws :: "ustr \<Rightarrow> ustr" where
  "skip_ws s = dropWhile is_ws s"

definition is_digit :: "nat \<Rightarrow> bool" where
  "is_digit c = (48 \<le> c \<and> c \<le> 57)"

definition int_of_digits :: "ustr \<Rightarrow> int" where
  "int_of_digits ds = foldl (\<lambda>a c. 10 * a + (int c - 48)) 0 ds"

definition match_number :: "ustr \<Rightarrow> (json \<times> ustr) option" where
  "match_number s =
     (let sign = (case s of [] \<Rightarrow> [] | c # r \<Rightarrow> if c = 45 then [c] else []);
          s1 = drop (length sign) s;
          ip = (case s1 of [] \<Rightarrow> []
                | c # r \<Rightarrow> if c = 48 then [c]
                           else if 49 \<le> c \<and> c \<le> 57 then c # takeWhile is_digit r
                           else [])
      in if ip = [] then None
         else
           let s2 = drop (length ip) s1;
               frac = (case s2 of [] \<Rightarrow> []
                       | c # r \<Rightarrow> if c = 46 \<and> takeWhile is_digit r \<noteq> []
                                  then c # takeWhile is_digit r else []);
               s3 = drop (length frac) s2;
               ex = (case s3 of [] \<Rightarrow> []
                     | c # r \<Rightarrow>
                         if c = 101 \<or> c = 69
                         then (let sg = (case r of [] \<Rightarrow> []
                                         | d # r' \<Rightarrow> if d = 43 \<or> d = 45 then [d] else []);
                                   ds = takeWhile is_digit (drop (length sg) r)
                               in if ds = [] then [] else c # sg @ ds)
                         else []);
               s4 = drop (length ex) s3
           in if frac = [] \<and> ex = []
              then Some (JInt (if sign = [] then int_of_digits ip else - int_of_digits ip), s4)
              else Some (JFloat (sign @ ip @ frac @ ex), s4))"

definition hex_val :: "nat \<Rightarrow> nat option" where
  "hex_val c =
     (if 48 \<le> c \<and> c \<le> 57 then Some (c - 48)
      else if 97 \<le> c \<and> c \<le> 102 then Some (c - 87)
      else if 65 \<le> c \<and> c \<le> 70 then Some (c - 55)
      else None)"

definition decode_uXXXX :: "ustr \<Rightarrow> (nat \<times> ustr) option" where
  "decode_uXXXX s =
     (case s of
        a # b # c # d # r \<Rightarrow>
          (case (hex_val a, hex_val b, hex_val c, hex_val d) of
             (Some x3, Some x2, Some x1, Some x0) \<Rightarrow> Some (((x3 * 16 + x2) * 16 + x1) * 16 + x0, r)
           | _ \<Rightarrow> None)
      | _ \<Rightarrow> None)"

definition backslash :: "nat \<Rightarrow> nat option" where
  "backslash e =
     (if e = 34 then Some 34 else if e = 92 then Some 92 else if e = 47 then Some 47
      else if e = 98 then Some 8 else if e = 102 then Some 12 else if e = 110 then Some 10
      else if e = 114 then Some 13 else if e = 116 then Some 9 else None)"

definition prepend :: "nat \<Rightarrow> (ustr \<times> ustr) option \<Rightarrow> (ustr \<times> ustr) option" where
  "prepend c r = (case r of None \<Rightarrow> None | Some (t, rest) \<Rightarrow> Some (c # t, rest))"

text \<open>\<open>decode_uXXXX\<close> consumes four characters, whence the scanner of strings terminates.\<close>

lemma decode_uXXXX_length: "decode_uXXXX s = Some (v, r) \<Longrightarrow> length r < length s"
  by (auto simp: decode_uXXXX_def split: list.splits option.splits)

function scanstring :: "ustr \<Rightarrow> (ustr \<times> ustr) option" where
  "scanstring [] = None"
| "scanstring (c # s) =
     (if c = 34 then Some ([], s)
      else if c = 92 then
        (case s of
           [] \<Rightarrow> None
         | e # r \<Rightarrow>
             if e = 117 then
               (case decode_uXXXX r of
                  None \<Rightarrow> None
                | Some (uni, r1) \<Rightarrow>
                    if 55296 \<le> uni \<and> uni \<le> 56319 \<and> take 2 r1 = [92, 117] then
                      (case decode_uXXXX (drop 2 r1) of
                         None \<Rightarrow> None
                       | Some (uni2, r2) \<Rightarrow>
                           if 56320 \<le> uni2 \<and> uni2 \<le> 57343
                           then prepend (65536 + ((uni - 55296) * 1024 + (uni2 - 56320))) (scanstring r2)
                           else prepend uni (scanstring r1))
                    else prepend uni (scanstring r1))
             else (case backslash e of
                     None \<Rightarrow> None
                   | Some ch \<Rightarrow> prepend ch (scanstring r)))
      else if c < 32 then None
      else prepend c (scanstring s))"
  by pat_completeness auto
termination
proof (relation "measure length", goal_cases)
  case 1 show ?case by simp
next
  case (2 c s e r x uni r1 x2 uni2 r2)
  then show ?case using decode_uXXXX_length[of r uni r1] decode_uXXXX_length[of "drop 2 r1" uni2 r2] by simp
next
  case 3 then show ?case using decode_uXXXX_length by fastforce
next
  case 4 then show ?case using decode_uXXXX_length by fastforce
next
  case 5 then show ?case by simp
next
  case 6 then show ?case by simp
qed


lemma prepend_Some: "prepend c x = Some (t, r) \<Longrightarrow> \<exists>t'. x = Some (t', r)"
  by (auto simp: prepend_def split: option.splits)

lemma decode_uXXXX_length4: "decode_uXXXX s = Some (v, r) \<Longrightarrow> length s = length r + 4"
  by (auto simp: decode_uXXXX_def split: list.splits option.splits)

lemma scanstring_step:
  assumes "scanstring (c # s) = Some (t, r)"
  shows "r = s \<or> (\<exists>s' t'. length s' \<le> length s \<and> scanstring s' = Some (t', r))"
proof (cases "c = 34")
  case True
  with assms show ?thesis by simp
next
  case c34: False
  show ?thesis
  proof (cases "c = 92")
    case False
    with c34 assms have "prepend c (scanstring s) = Some (t, r)"
      by (simp split: if_splits)
    then show ?thesis by (blast dest: prepend_Some)
  next
    case True
    with assms obtain e r0 where s: "s = e # r0"
      by (cases s) auto
    show ?thesis
    proof (cases "e = 117")
      case False
      with True s assms obtain ch where "prepend ch (scanstring r0) = Some (t, r)"
        by (auto split: option.splits)
      then obtain t' where "scanstring r0 = Some (t', r)" by (blast dest: prepend_Some)
      with s show ?thesis by (intro disjI2 exI[of _ r0] exI[of _ t']) simp
    next
      case e: True
      with True s assms obtain uni r1 where d: "decode_uXXXX r0 = Some (uni, r1)"
        by (cases "decode_uXXXX r0") auto
      have l1: "length r1 \<le> length s" using decode_uXXXX_length4[OF d] s by simp
      show ?thesis
      proof (cases "55296 \<le> uni \<and> uni \<le> 56319 \<and> take 2 r1 = [92, 117]")
        case False
        with True e s d assms have "prepend uni (scanstring r1) = Some (t, r)"
          by (auto split: if_splits)
        then obtain t' where "scanstring r1 = Some (t', r)" by (blast dest: prepend_Some)
        with l1 show ?thesis by blast
      next
        case sur: True
        with True e s d assms obtain uni2 r2 where d2: "decode_uXXXX (drop 2 r1) = Some (uni2, r2)"
          by (cases "decode_uXXXX (drop 2 r1)") auto
        have l2: "length r2 \<le> length s" using decode_uXXXX_length4[OF d2] l1 by simp
        show ?thesis
        proof (cases "56320 \<le> uni2 \<and> uni2 \<le> 57343")
          case True
          with \<open>c = 92\<close> e s d d2 sur assms obtain x where "prepend x (scanstring r2) = Some (t, r)"
            by auto
          then obtain t' where "scanstring r2 = Some (t', r)" by (blast dest: prepend_Some)
          with l2 show ?thesis by blast
        next
          case False
          with \<open>c = 92\<close> e s d d2 sur assms have "prepend uni (scanstring r1) = Some (t, r)"
            by auto
          then obtain t' where "scanstring r1 = Some (t', r)" by (blast dest: prepend_Some)
          with l1 show ?thesis by blast
        qed
      qed
    qed
  qed
qed

lemma scanstring_length: "scanstring s = Some (t, r) \<Longrightarrow> length r < length s"
proof (induction "length s" arbitrary: s t r rule: less_induct)
  case less
  from less.prems obtain c s0 where s: "s = c # s0" by (cases s) auto
  from scanstring_step[OF less.prems[unfolded s]]
  show ?case
  proof
    assume "r = s0" with s show ?thesis by simp
  next
    assume "\<exists>s' t'. length s' \<le> length s0 \<and> scanstring s' = Some (t', r)"
    then obtain s' t' where *: "length s' \<le> length s0" "scanstring s' = Some (t', r)" by blast
    from less.hyps[of s' t' r] * s show ?thesis by simp
  qed
qed

text \<open>
  \<^verbatim>\<open>dict(pairs)\<close>: a key that is already there keeps its place and takes the new value.
\<close>

definition dict_set :: "(ustr \<times> json) list \<Rightarrow> ustr \<Rightarrow> json \<Rightarrow> (ustr \<times> json) list" where
  "dict_set d k v = (if k \<in> fst ` set d then map (\<lambda>(k', v'). if k' = k then (k', v) else (k', v')) d else d @ [(k, v)])"

lemma skip_ws_length: "length (skip_ws s) \<le> length s"
  by (simp add: skip_ws_def length_dropWhile_le)

lemma skip_ws_Cons_length: "skip_ws s = d # r \<Longrightarrow> length r < length s"
  using skip_ws_length[of s] by simp

text \<open>
  \<open>scan_once\<close> decodes one value at the head of the input; \<open>array_loop\<close> and
  \<open>object_loop\<close> are the loops of \<^verbatim>\<open>JSONArray\<close> and \<^verbatim>\<open>JSONObject\<close>, entered
  after the opening bracket (and, for an object, after the opening quote of the first
  key). The tests \<open>length r < length s\<close> are there for the termination proof only:
  \<open>scan_once_length\<close> shows that they never fail.
\<close>

function (sequential) scan_once :: "ustr \<Rightarrow> (json \<times> ustr) option"
  and array_loop :: "json list \<Rightarrow> ustr \<Rightarrow> (json \<times> ustr) option"
  and object_loop :: "(ustr \<times> json) list \<Rightarrow> ustr \<Rightarrow> (json \<times> ustr) option"
where
  "scan_once [] = None"
| "scan_once (c # s) =
     (if c = 34 then (case scanstring s of None \<Rightarrow> None | Some (t, r) \<Rightarrow> Some (JString t, r))
      else if c = 123 then
        (case skip_ws s of
           [] \<Rightarrow> None
         | d # r \<Rightarrow> if d = 125 then Some (JObject [], r)
                    else if d = 34 then object_loop [] r
                    else None)
      else if c = 91 then
        (case skip_ws s of
           [] \<Rightarrow> None
         | d # r \<Rightarrow> if d = 93 then Some (JArray [], r) else array_loop [] (d # r))
      else if take 4 (c # s) = u ''null'' then Some (JNull, drop 4 (c # s))
      else if take 4 (c # s) = u ''true'' then Some (JBool True, drop 4 (c # s))
      else if take 5 (c # s) = u ''false'' then Some (JBool False, drop 5 (c # s))
      else (case match_number (c # s) of
              Some m \<Rightarrow> Some m
            | None \<Rightarrow>
                if take 3 (c # s) = u ''NaN'' then Some (JFloat (u ''NaN''), drop 3 (c # s))
                else if take 8 (c # s) = u ''Infinity'' then Some (JFloat (u ''Infinity''), drop 8 (c # s))
                else if take 9 (c # s) = u ''-Infinity'' then Some (JFloat (u ''-Infinity''), drop 9 (c # s))
                else None))"
| "array_loop vs s =
     (case scan_once s of
        None \<Rightarrow> None
      | Some (v, r) \<Rightarrow>
          if length r < length s then
            (case skip_ws r of
               [] \<Rightarrow> None
             | d # r1 \<Rightarrow> if d = 93 then Some (JArray (vs @ [v]), r1)
                         else if d \<noteq> 44 then None
                         else array_loop (vs @ [v]) (skip_ws r1))
          else None)"
| "object_loop ps s =
     (case scanstring s of
        None \<Rightarrow> None
      | Some (k, r) \<Rightarrow>
          (case skip_ws r of
             [] \<Rightarrow> None
           | d # r1 \<Rightarrow>
               if d \<noteq> 58 then None
               else (case scan_once (skip_ws r1) of
                       None \<Rightarrow> None
                     | Some (v, r2) \<Rightarrow>
                         if length r2 < length (skip_ws r1) then
                           (case skip_ws r2 of
                              [] \<Rightarrow> None
                            | d2 # r3 \<Rightarrow>
                                if d2 = 125 then Some (JObject (dict_set ps k v), r3)
                                else if d2 \<noteq> 44 then None
                                else (case skip_ws r3 of
                                        [] \<Rightarrow> None
                                      | d3 # r4 \<Rightarrow> if d3 = 34 then object_loop (dict_set ps k v) r4
                                                   else None))
                         else None)))"
  by pat_completeness auto

termination
  apply (relation "measure (\<lambda>x. case x of Inl s \<Rightarrow> 2 * length s
                                | Inr (Inl (vs, s)) \<Rightarrow> 2 * length s + 1
                                | Inr (Inr (ps, s)) \<Rightarrow> 2 * length s + 1)")
  apply simp
  subgoal by (auto dest: skip_ws_Cons_length)
  subgoal by (auto dest: skip_ws_Cons_length)
  subgoal by simp
  subgoal for vs s x v r d r1 
    using skip_ws_length[of r1] by (auto dest: skip_ws_Cons_length)
  subgoal for ps s x k r d r1
    using skip_ws_length[of r1] by (auto dest!: skip_ws_Cons_length scanstring_length)
  subgoal for ps s x k r d r1 y v r2 d2 r3 d3 r4
    using skip_ws_length[of r1] by (auto dest!: skip_ws_Cons_length scanstring_length)
  done

definition json_loads :: "ustr \<Rightarrow> json option" where
  "json_loads s =
     (if take 1 s = [65279] then None
      else (case scan_once (skip_ws s) of
              None \<Rightarrow> None
            | Some (v, r) \<Rightarrow> if skip_ws r = [] then Some v else None))"

subsection \<open>The decoder consumes its input\<close>

lemma match_number_length:
  assumes "match_number s = Some (v, r)"
  shows "length r < length s"
proof -
  define sign where "sign = (case s of [] \<Rightarrow> [] | c # r \<Rightarrow> if c = 45 then [c] else [])"
  define s1 where "s1 = drop (length sign) s"
  define ip where "ip = (case s1 of [] \<Rightarrow> []
                | c # r \<Rightarrow> if c = 48 then [c]
                           else if 49 \<le> c \<and> c \<le> 57 then c # takeWhile is_digit r
                           else [])"
  have ip: "ip \<noteq> []"
    using assms unfolding match_number_def sign_def[symmetric] Let_def s1_def[symmetric] ip_def[symmetric]
    by (auto split: if_splits)
  then have s1: "s1 \<noteq> []" by (auto simp: ip_def)
  have "length r \<le> length s1 - length ip"
    using assms ip unfolding match_number_def sign_def[symmetric] Let_def s1_def[symmetric] ip_def[symmetric]
    by (auto split: if_splits)
  also have "\<dots> < length s1" using ip s1 by (cases ip; cases s1) auto
  also have "\<dots> \<le> length s" by (simp add: s1_def)
  finally show ?thesis .
qed

lemma scan_once_length_aux:
  "(\<forall>v r. scan_once s = Some (v, r) \<longrightarrow> length r < length s)"
  "(\<forall>v r. array_loop vs s = Some (v, r) \<longrightarrow> length r < length s)"
  "(\<forall>v r. object_loop ps s' = Some (v, r) \<longrightarrow> length r < length s')"
proof (induction s and vs s and ps s' rule: scan_once_array_loop_object_loop.induct)
  case 1
  then show ?case by simp
next
  case (2 c s)
  show ?case
  proof (intro allI impI)
    fix v r assume a: "scan_once (c # s) = Some (v, r)"
    consider "c = 34" | "c = 123" | "c = 91" | "c \<noteq> 34" "c \<noteq> 123" "c \<noteq> 91" by blast
    then show "length r < length (c # s)"
    proof cases
      case 1
      with a show ?thesis by (auto split: option.splits dest!: scanstring_length)
    next
      case 2
      with a obtain d r0 where sk: "skip_ws s = d # r0" by (cases "skip_ws s") auto
      have l: "length r0 < length s" by (rule skip_ws_Cons_length[OF sk])
      show ?thesis
      proof (cases "d = 125")
        case True
        with 2 a sk l show ?thesis by simp
      next
        case False
        with 2 a sk have d: "d = 34" and ol: "object_loop [] r0 = Some (v, r)"
          by (auto split: if_splits)
        from "2.IH"(1)[OF _ _ sk False d] 2 ol have "length r < length r0" by simp
        with l show ?thesis by simp
      qed
    next
      case 3
      with a obtain d r0 where sk: "skip_ws s = d # r0" by (cases "skip_ws s") auto
      have l: "length r0 < length s" by (rule skip_ws_Cons_length[OF sk])
      show ?thesis
      proof (cases "d = 93")
        case True
        with 3 a sk l show ?thesis by simp
      next
        case False
        with 3 a sk have al: "array_loop [] (d # r0) = Some (v, r)"
          by (auto split: if_splits)
        from "2.IH"(2)[OF _ _ _ sk False] 3 al have "length r < length (d # r0)" by simp
        with l show ?thesis by simp
      qed
    next
      case 4
      with a show ?thesis
        by (auto split: if_splits option.splits dest: match_number_length)
    qed
  qed
next
  case (3 vs s)
  show ?case
  proof (intro allI impI)
    fix v r assume a: "array_loop vs s = Some (v, r)"
    then obtain v0 r0 where so: "scan_once s = Some (v0, r0)"
      by (cases "scan_once s") auto
    with a have g: "length r0 < length s" by (auto split: if_splits)
    with a so obtain d r1 where sk: "skip_ws r0 = d # r1" by (cases "skip_ws r0") auto
    have l1: "length r1 < length r0" by (rule skip_ws_Cons_length[OF sk])
    show "length r < length s"
    proof (cases "d = 93")
      case True
      with a so g sk l1 show ?thesis by simp
    next
      case False
      with a so g sk have d: "\<not> d \<noteq> 44" and al: "array_loop (vs @ [v0]) (skip_ws r1) = Some (v, r)"
        by (auto split: if_splits)
      from "3.IH"(2)[OF so refl g sk False d] al have "length r < length (skip_ws r1)" by simp
      with skip_ws_length[of r1] l1 g show ?thesis by simp
    qed
  qed
next
  case (4 ps s)
  show ?case
  proof (intro allI impI)
    fix v r assume a: "object_loop ps s = Some (v, r)"
    then obtain k r0 where ss: "scanstring s = Some (k, r0)"
      by (cases "scanstring s") auto
    have l0: "length r0 < length s" by (rule scanstring_length[OF ss])
    from a ss obtain d r1 where sk: "skip_ws r0 = d # r1" by (cases "skip_ws r0") auto
    have l1: "length r1 < length r0" by (rule skip_ws_Cons_length[OF sk])
    from a ss sk have d: "\<not> d \<noteq> 58" by (auto split: if_splits)
    with a ss sk obtain v0 r2 where so: "scan_once (skip_ws r1) = Some (v0, r2)"
      by (cases "scan_once (skip_ws r1)") auto
    with a ss sk d have g: "length r2 < length (skip_ws r1)" by (auto split: if_splits)
    with a ss sk d so obtain d2 r3 where sk2: "skip_ws r2 = d2 # r3" by (cases "skip_ws r2") auto
    have l3: "length r3 < length r2" by (rule skip_ws_Cons_length[OF sk2])
    have chain: "length r3 < length s"
      using l3 g skip_ws_length[of r1] l1 l0 by simp
    show "length r < length s"
    proof (cases "d2 = 125")
      case True
      with a ss sk d so g sk2 chain show ?thesis by simp
    next
      case False
      with a ss sk d so g sk2 have d2: "\<not> d2 \<noteq> 44" by (auto split: if_splits)
      with a ss sk d so g sk2 False obtain d3 r4 where sk3: "skip_ws r3 = d3 # r4"
        by (cases "skip_ws r3") auto
      have l4: "length r4 < length r3" by (rule skip_ws_Cons_length[OF sk3])
      from a ss sk d so g sk2 False d2 sk3 have d3: "d3 = 34"
        and ol: "object_loop (dict_set ps k v0) r4 = Some (v, r)"
        by (auto split: if_splits)
      from "4.IH"(2)[OF ss refl sk d so refl g sk2 False d2 sk3 d3] ol
      have "length r < length r4" by simp
      with l4 chain show ?thesis by simp
    qed
  qed
qed

lemma scan_once_length: "scan_once s = Some (v, r) \<Longrightarrow> length r < length s"
  using scan_once_length_aux(1) by blast

lemma array_loop_unguarded:
  "array_loop vs s =
     (case scan_once s of
        None \<Rightarrow> None
      | Some (v, r) \<Rightarrow>
          (case skip_ws r of
             [] \<Rightarrow> None
           | d # r1 \<Rightarrow> if d = 93 then Some (JArray (vs @ [v]), r1)
                       else if d \<noteq> 44 then None
                       else array_loop (vs @ [v]) (skip_ws r1)))"
  by (subst array_loop.simps)
     (auto split: option.splits dest: scan_once_length
           simp del: scan_once.simps array_loop.simps object_loop.simps)

lemma object_loop_unguarded:
  "object_loop ps s =
     (case scanstring s of
        None \<Rightarrow> None
      | Some (k, r) \<Rightarrow>
          (case skip_ws r of
             [] \<Rightarrow> None
           | d # r1 \<Rightarrow>
               if d \<noteq> 58 then None
               else (case scan_once (skip_ws r1) of
                       None \<Rightarrow> None
                     | Some (v, r2) \<Rightarrow>
                         (case skip_ws r2 of
                            [] \<Rightarrow> None
                          | d2 # r3 \<Rightarrow>
                              if d2 = 125 then Some (JObject (dict_set ps k v), r3)
                              else if d2 \<noteq> 44 then None
                              else (case skip_ws r3 of
                                      [] \<Rightarrow> None
                                    | d3 # r4 \<Rightarrow> if d3 = 34 then object_loop (dict_set ps k v) r4
                                                 else None)))))"
  by (subst object_loop.simps)
     (auto split: option.splits list.splits dest: scan_once_length
           simp del: scan_once.simps array_loop.simps object_loop.simps)

section \<open>Python operations the handlers use\<close>

text \<open>
  \<^verbatim>\<open>str.isspace\<close> on one code point, which is what \<^verbatim>\<open>str.strip()\<close> removes from
  both ends.
\<close>

definition isspace :: "nat \<Rightarrow> bool" where
  "isspace c =
     ((9 \<le> c \<and> c \<le> 13) \<or> (28 \<le> c \<and> c \<le> 32) \<or> c = 133 \<or> c = 160 \<or> c = 5760
      \<or> (8192 \<le> c \<and> c \<le> 8202) \<or> c = 8232 \<or> c = 8233 \<or> c = 8239 \<or> c = 8287
      \<or> c = 12288)"

definition strip :: "ustr \<Rightarrow> ustr" where
  "strip s = rev (dropWhile isspace (rev (dropWhile isspace s)))"

text \<open>
  \<^verbatim>\<open>data.get(k, d)\<close> and \<^verbatim>\<open>v.strip()\<close> on a value of \<^verbatim>\<open>request.get_json()\<close>: only a
  \<^verbatim>\<open>dict\<close> has \<^verbatim>\<open>get\<close> and only a \<^verbatim>\<open>str\<close> has \<^verbatim>\<open>strip\<close>.
\<close>

fun dict_get :: "json \<Rightarrow> ustr \<Rightarrow> json \<Rightarrow> exn + json" where
  "dict_get (JObject kvs) k d = Inr (case map_of kvs k of None \<Rightarrow> d | Some v \<Rightarrow> v)"
| "dict_get _ k d = Inl AttributeError"

fun str_strip :: "json \<Rightarrow> exn + ustr" where
  "str_strip (JString s) = Inr (strip s)"
| "str_strip _ = Inl AttributeError"

text \<open>Subscription \<^verbatim>\<open>v[k]\<close> with a string key and \<^verbatim>\<open>v[0]\<close>.\<close>

fun getitem_key :: "json \<Rightarrow> ustr \<Rightarrow> exn + json" where
  "getitem_key (JObject kvs) k = (case map_of kvs k of None \<Rightarrow> Inl KeyError | Some v \<Rightarrow> Inr v)"
| "getitem_key _ k = Inl TypeError"

fun getitem_0 :: "json \<Rightarrow> exn + json" where
  "getitem_0 (JArray xs) = (case xs of [] \<Rightarrow> Inl IndexError | x # _ \<Rightarrow> Inr x)"
| "getitem_0 (JString s) = (case s of [] \<Rightarrow> Inl IndexError | c # _ \<Rightarrow> Inr (JString [c]))"
| "getitem_0 (JObject kvs) = Inl KeyError"
| "getitem_0 _ = Inl TypeError"

text \<open>
  \<^verbatim>\<open>s.find(c, start)\<close> for a one-character \<open>c\<close>: the least index from \<open>start\<close> on
  where \<open>c\<close> stands, or \<open>-1\<close>; a negative \<open>start\<close> counts from the end.
\<close>

fun index_of :: "nat \<Rightarrow> ustr \<Rightarrow> nat option" where
  "index_of c [] = None"
| "index_of c (x # xs) = (if x = c then Some 0 else map_option Suc (index_of c xs))"

definition str_find :: "ustr \<Rightarrow> nat \<Rightarrow> int \<Rightarrow> int" where
  "str_find s c start =
     (let n = int (length s);
          st = (if start < 0 then max 0 (n + start) else start)
      in case index_of c (drop (nat st) s) of
           None \<Rightarrow> - 1
         | Some k \<Rightarrow> st + int k)"

text \<open>The slice \<^verbatim>\<open>s[i:j]\<close> for \<open>0 \<le> i\<close> and \<open>0 \<le> j\<close>.\<close>

definition slice :: "ustr \<Rightarrow> int \<Rightarrow> int \<Rightarrow> ustr" where
  "slice s i j = take (nat j - nat i) (drop (nat i) s)"

text \<open>
  \<^verbatim>\<open>json.loads(content)\<close> where \<open>content\<close> is a value of the upstream's JSON body: a
  \<^verbatim>\<open>str\<close> is decoded, anything else is a \<^verbatim>\<open>TypeError\<close>.
\<close>

fun loads :: "json \<Rightarrow> exn + json" where
  "loads (JString s) = (case json_loads s of None \<Rightarrow> Inl JSONDecodeError | Some v \<Rightarrow> Inr v)"
| "loads _ = Inl TypeError"

section \<open>The upstream completion call\<close>

text \<open>
  One invocation of \<^verbatim>\<open>requests.post\<close>: the URL, the headers and the JSON payload. The
  upstream is a function from the invocation to what \<^verbatim>\<open>resp.json()\<close> then gives: the
  decoded body, or the exception that \<^verbatim>\<open>requests.post\<close> or \<^verbatim>\<open>resp.json()\<close> raised. A
  handler answers its outcome together with the list of the invocations it made.
\<close>

record call =
  url :: ustr
  call_headers :: "(ustr \<times> ustr) list"
  call_json :: json

type_synonym upstream = "call \<Rightarrow> exn + json"

datatype outcome = Returns response | Raises exn

text \<open>An f-string's rendering of a string that may be \<^verbatim>\<open>None\<close>.\<close>

definition fmt :: "ustr option \<Rightarrow> ustr" where
  "fmt x = (case x of None \<Rightarrow> u ''None'' | Some s \<Rightarrow> s)"

definition completion_call :: "env \<Rightarrow> json \<Rightarrow> json \<Rightarrow> json \<Rightarrow> call" where
  "completion_call e messages max_tokens temperature =
     \<lparr> url = u ''https://api.openai.com/v1/chat/completions'',
       call_headers = [(u ''Authorization'', u ''Bearer '' @ fmt (OPENAI_API_KEY e)),
                       (u ''Content-Type'', u ''application/json'')],
       call_json = JObject [(u ''model'', JString (OPENAI_MODEL e)),
                            (u ''messages'', messages),
                            (u ''max_tokens'', max_tokens),
                            (u ''temperature'', temperature)] \<rparr>"

definition message :: "ustr \<Rightarrow> ustr \<Rightarrow> json" where
  "message role content = JObject [(u ''role'', JString role), (u ''content'', JString content)]"

text \<open>\<^verbatim>\<open>resp.json()["choices"][0]["message"]["content"]\<close>\<close>

definition message_content :: "json \<Rightarrow> exn + json" where
  "message_content j =
     (case getitem_key j (u ''choices'') of
        Inl ex \<Rightarrow> Inl ex
      | Inr choices \<Rightarrow>
          (case getitem_0 choices of
             Inl ex \<Rightarrow> Inl ex
           | Inr choice \<Rightarrow>
               (case getitem_key choice (u ''message'') of
                  Inl ex \<Rightarrow> Inl ex
                | Inr m \<Rightarrow> getitem_key m (u ''content''))))"

definition csrf_error :: response where
  "csrf_error = jsonify (JObject [(u ''error'', JString (u ''CSRF token missing or invalid''))]) 403"

definition api_key_error :: response where
  "api_key_error = jsonify (JObject [(u ''error'', JString (u ''API key missing''))]) 500"

definition exception_error :: "exn \<Rightarrow> response" where
  "exception_error ex = \<lparr> status = 500, payload = ErrorOf ex, set_cookies = [] \<rparr>"

section \<open>Practice areas\<close>

definition areas_prompt :: "ustr \<Rightarrow> json" where
  "areas_prompt coach =
     JArray
       [message (u ''system'')
          (u ''You are an expert career coach. ''
           @ u ''List ONLY the main interview/practice areas for the career: '' @ [39] @ coach @ [39] @ u ''. ''
           @ u ''Return a valid JSON array with 10 to 30 distinct strings covering the breadth of the role. ''
           @ u ''No commentary, no explanation, no markdown, no keys, no extra text.''),
        message (u ''user'')
          (u ''Provide 10-30 core interview/practice areas for a '' @ [39] @ coach @ [39] @ u '' candidate. ''
           @ u ''Output ONLY a JSON array of strings.'')]"

text \<open>
  The extraction of the areas from the content of the completion (the inner
  \<^verbatim>\<open>try\<close> of \<^verbatim>\<open>get_areas\<close> and the two lines after it). \<open>Inr xs\<close> is the return of
  \<^verbatim>\<open>jsonify({"areas": xs})\<close>; \<open>Inl ex\<close> is an exception that leaves the inner
  \<^verbatim>\<open>try\<close>, which happens when the content is no \<^verbatim>\<open>str\<close> and so has no \<^verbatim>\<open>find\<close>.
\<close>

definition extract_areas :: "json \<Rightarrow> exn + json list" where
  "extract_areas content =
     (case loads content of
        Inr areas \<Rightarrow> (case areas of JArray xs \<Rightarrow> Inr xs | _ \<Rightarrow> Inr [])
      | Inl ex \<Rightarrow>
          (case content of
             JString s \<Rightarrow>
               (let start = str_find s 91 0;
                    end = str_find s 93 start
                in if start \<ge> 0 \<and> end > start then
                     (case json_loads (slice s start (end + 1)) of
                        Some (JArray xs) \<Rightarrow> Inr xs
                      | _ \<Rightarrow> Inr [])
                   else Inr [])
           | _ \<Rightarrow> Inl AttributeError))"

definition areas_response :: "json list \<Rightarrow> response" where
  "areas_response xs = jsonify (JObject [(u ''areas'', JArray xs)]) 200"

definition get_areas :: "env \<Rightarrow> upstream \<Rightarrow> request \<Rightarrow> outcome \<times> call list" where
  "get_areas e up req =
     (if \<not> verify_csrf req then (Returns csrf_error, [])
      else if \<not> truthy (OPENAI_API_KEY e) then (Returns api_key_error, [])
      else
        (case get_json req of
           Inl ex \<Rightarrow> (Raises ex, [])
         | Inr data \<Rightarrow>
             (case dict_get data (u ''coach'') (JString []) of
                Inl ex \<Rightarrow> (Raises ex, [])
              | Inr v \<Rightarrow>
                  (case str_strip v of
                     Inl ex \<Rightarrow> (Raises ex, [])
                   | Inr coach \<Rightarrow>
                       if coach = [] then (Returns (areas_response []), [])
                       else
                         (let c = completion_call e (areas_prompt coach) (JInt 300) (JFloat (u ''0.0''))
                          in (case up c of
                                Inl ex \<Rightarrow> Returns (exception_error ex)
                              | Inr j \<Rightarrow>
                                  (case message_content j of
                                     Inl ex \<Rightarrow> Returns (exception_error ex)
                                   | Inr content \<Rightarrow>
                                       (case extract_areas content of
                                          Inl ex \<Rightarrow> Returns (exception_error ex)
                                        | Inr xs \<Rightarrow> Returns (areas_response xs))),
                              [c]))))))"

section \<open>Chat relay\<close>

definition chat :: "env \<Rightarrow> upstream \<Rightarrow> request \<Rightarrow> outcome \<times> call list" where
  "chat e up req =
     (if \<not> verify_csrf req then (Returns csrf_error, [])
      else if \<not> truthy (OPENAI_API_KEY e) then (Returns api_key_error, [])
      else
        (case get_json req of
           Inl ex \<Rightarrow> (Raises ex, [])
         | Inr data \<Rightarrow>
             (case dict_get data (u ''messages'') JNull of
                Inl ex \<Rightarrow> (Raises ex, [])
              | Inr messages \<Rightarrow>
                  (case dict_get data (u ''max_tokens'') (JInt 800) of
                     Inl ex \<Rightarrow> (Raises ex, [])
                   | Inr max_tokens \<Rightarrow>
                       (case dict_get data (u ''temperature'') (JFloat (u ''0.2'')) of
                          Inl ex \<Rightarrow> (Raises ex, [])
                        | Inr temperature \<Rightarrow>
                            (let c = completion_call e messages max_tokens temperature
                             in (case up c of
                                   Inl ex \<Rightarrow> Returns (exception_error ex)
                                 | Inr j \<Rightarrow> Returns (jsonify j 200),
                                 [c])))))))"

section \<open>Safety classification\<close>

definition check_area_prompt :: "ustr \<Rightarrow> json" where
  \<open>check_area_prompt area =
     JArray
       [message (u ''system'')
          (u ''You are a strict career safety classifier. ''
           @ u ''Only allow mainstream, legal, and ethical career areas suitable for professional coaching. ''
           @ u ''If the area is unsafe, illegal, unethical, or inappropriate (e.g., suicide, sex work, criminal activity), respond ONLY with JSON: {"safe": false, "reason": "<short reason>"}. ''
           @ u ''If the area is safe and appropriate for coaching, respond ONLY with JSON: {"safe": true}. ''
           @ u ''No commentary, no extra text, no markdown.''),
        message (u ''user'')
          (u ''Is the area '' @ [39] @ area @ [39] @ u '' safe and appropriate for career coaching?'')]\<close>

definition could_not_verify :: json where
  "could_not_verify =
     JObject [(u ''safe'', JBool False), (u ''reason'', JString (u ''Could not verify area safety''))]"

text \<open>
  The inner \<^verbatim>\<open>try\<close> of \<^verbatim>\<open>check_area\<close> and the line after it: the JSON that the
  response carries.
\<close>

definition safety_result :: "json \<Rightarrow> json" where
  "safety_result content =
     (case loads content of
        Inr result \<Rightarrow>
          (case result of
             JObject kvs \<Rightarrow> if u ''safe'' \<in> fst ` set kvs then JObject kvs else could_not_verify
           | _ \<Rightarrow> could_not_verify)
      | Inl ex \<Rightarrow> could_not_verify)"

definition no_area :: json where
  "no_area = JObject [(u ''safe'', JBool False), (u ''reason'', JString (u ''No area provided''))]"

definition check_area :: "env \<Rightarrow> upstream \<Rightarrow> request \<Rightarrow> outcome \<times> call list" where
  "check_area e up req =
     (if \<not> verify_csrf req then (Returns csrf_error, [])
      else if \<not> truthy (OPENAI_API_KEY e) then (Returns api_key_error, [])
      else
        (case get_json req of
           Inl ex \<Rightarrow> (Raises ex, [])
         | Inr data \<Rightarrow>
             (case dict_get data (u ''area'') (JString []) of
                Inl ex \<Rightarrow> (Raises ex, [])
              | Inr v \<Rightarrow>
                  (case str_strip v of
                     Inl ex \<Rightarrow> (Raises ex, [])
                   | Inr area \<Rightarrow>
                       if area = [] then (Returns (jsonify no_area 200), [])
                       else
                         (let c = completion_call e (check_area_prompt area) (JInt 60) (JFloat (u ''0.0''))
                          in (case up c of
                                Inl ex \<Rightarrow> Returns (exception_error ex)
                              | Inr j \<Rightarrow>
                                  (case message_content j of
                                     Inl ex \<Rightarrow> Returns (exception_error ex)
                                   | Inr content \<Rightarrow> Returns (jsonify (safety_result content) 200)),
                              [c]))))))"

section \<open>Concrete requests\<close>

text \<open>
  The request that carries the given CSRF cookie, the given \<^verbatim>\<open>X-CSRF-Token\<close> header and
  the given outcome of \<^verbatim>\<open>get_json\<close>, and nothing else.
\<close>

definition req_with :: "ustr option \<Rightarrow> ustr option \<Rightarrow> exn + json \<Rightarrow> request" where
  "req_with c h b =
     \<lparr> cookies = (\<lambda>k. if k = CSRF_COOKIE_NAME then c else None),
       headers = (\<lambda>k. if k = u ''X-CSRF-Token'' then h else None),
       get_json = b \<rparr>"

definition tok_req :: "exn + json \<Rightarrow> request" where
  "tok_req b = req_with (Some (u ''tok'')) (Some (u ''tok'')) b"

definition env_key :: env where
  "env_key = [u ''OPENAI_API_KEY'' \<mapsto> u ''sk-test'']"

text \<open>
  An upstream that answers a completion whose first choice has the given content, and one
  that cannot be reached.
\<close>

definition up_content :: "ustr \<Rightarrow> upstream" where
  "up_content s =
     (\<lambda>c. Inr (JObject [(u ''choices'',
                JArray [JObject [(u ''message'',
                  JObject [(u ''role'', JString (u ''assistant'')), (u ''content'', JString s)])]])]))"

definition up_down :: upstream where
  "up_down = (\<lambda>c. Inl (RequestException (u ''connection refused'')))"

definition chat_body :: json where
  "chat_body = JObject [(u ''messages'', JArray [message (u ''user'') (u ''Hi'')]), (u ''max_tokens'', JInt 50)]"

definition chat_call :: call where
  "chat_call =
     \<lparr> url = u ''https://api.openai.com/v1/chat/completions'',
       call_headers = [(u ''Authorization'', u ''Bearer sk-test''),
                       (u ''Content-Type'', u ''application/json'')],
       call_json = JObject
         [(u ''model'', JString (u ''gpt-3.5-turbo'')),
          (u ''messages'', JArray [message (u ''user'') (u ''Hi'')]),
          (u ''max_tokens'', JInt 50),
          (u ''temperature'', JFloat (u ''0.2''))] \<rparr>"

section \<open>Auxiliary facts\<close>

lemma strip_Nil_iff: "strip s = [] \<longleftrightarrow> list_all isspace s"
proof
  assume "list_all isspace s"
  then have "dropWhile isspace s = []"
    by (simp only: dropWhile_eq_Nil_conv list_all_iff)
  then show "strip s = []" by (simp add: strip_def del: dropWhile_eq_Nil_conv)
next
  assume "strip s = []"
  then have "dropWhile isspace (rev (dropWhile isspace s)) = []"
    by (simp add: strip_def del: dropWhile_eq_Nil_conv)
  then have "\<forall>x\<in>set (rev (dropWhile isspace s)). isspace x"
    by (simp only: dropWhile_eq_Nil_conv)
  then have all: "\<forall>x\<in>set (dropWhile isspace s). isspace x" by simp
  have "dropWhile isspace s = []"
  proof (rule ccontr)
    assume ne: "dropWhile isspace s \<noteq> []"
    then have "\<not> isspace (hd (dropWhile isspace s))" by (rule hd_dropWhile)
    moreover from ne have "hd (dropWhile isspace s) \<in> set (dropWhile isspace s)" by simp
    ultimately show False using all by blast
  qed
  then show "list_all isspace s" by (simp only: dropWhile_eq_Nil_conv list_all_iff)
qed

lemma verify_csrf_req_with:
  "verify_csrf (req_with c h b) = (truthy c \<and> c = h \<and> is_ascii (case c of None \<Rightarrow> [] | Some x \<Rightarrow> x))"
  by (cases c; cases h) (auto simp: verify_csrf_def req_with_def compare_digest_def)

lemma get_json_req_with: "get_json (req_with c h b) = b"
  by (simp add: req_with_def)

lemma u_eq_iff: "u a = u b \<longleftrightarrow> a = b"
proof -
  have "inj ord" unfolding ord_def[abs_def] by (rule inj_on_inverseI[where g = char_of]) simp
  then show ?thesis by (simp add: u_def inj_map_eq_map)
qed









lemma safe_key_iff: "k \<in> fst ` set kvs \<longleftrightarrow> map_of kvs k \<noteq> None"
  by (simp add: map_of_eq_None_iff)

lemma strip_tok: "strip (u ''law'') = u ''law''"
  by (simp add: strip_def u_def ord_def isspace_def)


lemma message_content_up_content:
  "up_content s c = Inr j \<Longrightarrow> message_content j = Inr (JString s)"
  by (auto simp: up_content_def message_content_def u_eq_iff)

section \<open>Properties of the CSRF guard\<close>

lemma verify_csrf_iff:
  "verify_csrf req =
     (\<exists>c. cookies req CSRF_COOKIE_NAME = Some c \<and> headers req (u ''X-CSRF-Token'') = Some c
          \<and> c \<noteq> [] \<and> is_ascii c)"
proof (cases "cookies req CSRF_COOKIE_NAME")
  case None
  then show ?thesis by (simp add: verify_csrf_def)
next
  case c: (Some c)
  show ?thesis
  proof (cases "headers req (u ''X-CSRF-Token'')")
    case None
    with c show ?thesis by (simp add: verify_csrf_def)
  next
    case (Some h)
    with c show ?thesis
      by (auto simp: verify_csrf_def compare_digest_def)
  qed
qed

text \<open>
  C1 (as the code has it). \<open>verify_csrf\<close> is false when the cookie token or the header
  token is absent or empty; it is false whenever \<open>compare_digest\<close> raises, and the
  exception does not leave the function; and it is true exactly when both tokens are
  present, not empty, made of ASCII characters only, and equal. Equal tokens that hold a
  non-ASCII character make \<open>compare_digest\<close> raise, so they fail the verification.
\<close>

theorem verify_csrf_ascii_equal:
  "(\<not> truthy (cookies req CSRF_COOKIE_NAME) \<or> \<not> truthy (headers req (u ''X-CSRF-Token''))
      \<longrightarrow> \<not> verify_csrf req)
   \<and> (compare_digest (cookies req CSRF_COOKIE_NAME) (headers req (u ''X-CSRF-Token'')) = Inl ex
      \<longrightarrow> \<not> verify_csrf req)
   \<and> (verify_csrf req \<longleftrightarrow>
        (\<exists>c. cookies req CSRF_COOKIE_NAME = Some c \<and> headers req (u ''X-CSRF-Token'') = Some c
             \<and> c \<noteq> [] \<and> is_ascii c))"
proof (intro conjI impI)
  assume "\<not> truthy (cookies req CSRF_COOKIE_NAME) \<or> \<not> truthy (headers req (u ''X-CSRF-Token''))"
  then show "\<not> verify_csrf req" by (simp add: verify_csrf_def)
next
  assume "compare_digest (cookies req CSRF_COOKIE_NAME) (headers req (u ''X-CSRF-Token'')) = Inl ex"
  then show "\<not> verify_csrf req" by (simp add: verify_csrf_def Let_def)
next
  show "verify_csrf req \<longleftrightarrow>
        (\<exists>c. cookies req CSRF_COOKIE_NAME = Some c \<and> headers req (u ''X-CSRF-Token'') = Some c
             \<and> c \<noteq> [] \<and> is_ascii c)"
    by (rule verify_csrf_iff)
qed

theorem verify_csrf_ascii_equal_witness:
  "\<not> truthy (cookies (req_with None (Some (u ''t'')) (Inr JNull)) CSRF_COOKIE_NAME)
   \<and> \<not> verify_csrf (req_with None (Some (u ''t'')) (Inr JNull))
   \<and> compare_digest (cookies (req_with (Some [233]) (Some [233]) (Inr JNull)) CSRF_COOKIE_NAME)
        (headers (req_with (Some [233]) (Some [233]) (Inr JNull)) (u ''X-CSRF-Token'')) = Inl TypeError
   \<and> \<not> verify_csrf (req_with (Some [233]) (Some [233]) (Inr JNull))
   \<and> verify_csrf (req_with (Some (u ''t'')) (Some (u ''t'')) (Inr JNull))"
  using verify_csrf_ascii_equal [of "req_with None (Some (u ''t'')) (Inr JNull)" TypeError]
        verify_csrf_ascii_equal [of "req_with (Some [233]) (Some [233]) (Inr JNull)" TypeError]
        verify_csrf_ascii_equal [of "req_with (Some (u ''t'')) (Some (u ''t'')) (Inr JNull)" TypeError]
  by (simp add: req_with_def compare_digest_def is_ascii_def u_def ord_def)

text \<open>
  The claim as stated fails: the cookie and the header both hold the one-character token
  \<^verbatim>\<open>"\xe9"\<close>, they are present, not empty and equal, and the verification fails.
\<close>

theorem verify_csrf_equal_tokens_counterexample:
  "cookies (req_with (Some [233]) (Some [233]) (Inr JNull)) CSRF_COOKIE_NAME = Some [233]
   \<and> headers (req_with (Some [233]) (Some [233]) (Inr JNull)) (u ''X-CSRF-Token'') = Some [233]
   \<and> \<not> verify_csrf (req_with (Some [233]) (Some [233]) (Inr JNull))"
  by (simp add: req_with_def verify_csrf_def compare_digest_def is_ascii_def)

section \<open>The gates of the model-backed handlers\<close>

lemma tok_req_ok: "verify_csrf (tok_req b)"
  by (simp add: tok_req_def verify_csrf_req_with is_ascii_def u_def ord_def)

lemma get_json_tok_req: "get_json (tok_req b) = b"
  by (simp add: tok_req_def get_json_req_with)

lemma env_key_ok: "truthy (OPENAI_API_KEY env_key)"
  by (simp add: OPENAI_API_KEY_def env_key_def u_def)

lemma no_key: "\<not> truthy (OPENAI_API_KEY Map.empty)"
  by (simp add: OPENAI_API_KEY_def)

text \<open>
  C2. When the CSRF verification fails, each of the three model-backed handlers returns
  the status 403 with the body \<^verbatim>\<open>{"error": "CSRF token missing or invalid"}\<close> and makes
  no upstream call; and a handler that made an upstream call was given a request whose
  CSRF verification succeeded.
\<close>

theorem csrf_gates_upstream:
  "(\<not> verify_csrf req \<longrightarrow>
       get_areas e up req = (Returns csrf_error, [])
     \<and> chat e up req = (Returns csrf_error, [])
     \<and> check_area e up req = (Returns csrf_error, []))
   \<and> (snd (get_areas e up req) \<noteq> [] \<or> snd (chat e up req) \<noteq> [] \<or> snd (check_area e up req) \<noteq> []
        \<longrightarrow> verify_csrf req)
   \<and> status csrf_error = 403
   \<and> payload csrf_error = Json (JObject [(u ''error'', JString (u ''CSRF token missing or invalid''))])"
proof -
  have bad: "get_areas e up req = (Returns csrf_error, [])
     \<and> chat e up req = (Returns csrf_error, [])
     \<and> check_area e up req = (Returns csrf_error, [])" if "\<not> verify_csrf req"
    using that by (simp add: get_areas_def chat_def check_area_def)
  then have "snd (get_areas e up req) = [] \<and> snd (chat e up req) = [] \<and> snd (check_area e up req) = []"
    if "\<not> verify_csrf req"
    using that by simp
  then have "snd (get_areas e up req) \<noteq> [] \<or> snd (chat e up req) \<noteq> [] \<or> snd (check_area e up req) \<noteq> []
        \<longrightarrow> verify_csrf req"
    by blast
  moreover have "status csrf_error = 403"
    and "payload csrf_error = Json (JObject [(u ''error'', JString (u ''CSRF token missing or invalid''))])"
    by (simp_all add: csrf_error_def jsonify_def)
  ultimately show ?thesis using bad by blast
qed

theorem csrf_gates_upstream_witness:
  "\<not> verify_csrf (req_with None (Some (u ''tok'')) (Inr (JObject [])))
   \<and> get_areas env_key up_down (req_with None (Some (u ''tok'')) (Inr (JObject []))) = (Returns csrf_error, [])
   \<and> chat env_key up_down (req_with None (Some (u ''tok'')) (Inr (JObject []))) = (Returns csrf_error, [])
   \<and> check_area env_key up_down (req_with None (Some (u ''tok'')) (Inr (JObject []))) = (Returns csrf_error, [])
   \<and> snd (chat env_key up_down (tok_req (Inr (JObject [])))) \<noteq> []
   \<and> verify_csrf (tok_req (Inr (JObject [])))"
proof -
  have bad: "\<not> verify_csrf (req_with None (Some (u ''tok'')) (Inr (JObject [])))"
    by (simp add: verify_csrf_req_with)
  have calls: "snd (chat env_key up_down (tok_req (Inr (JObject [])))) \<noteq> []"
    by (simp add: chat_def tok_req_ok env_key_ok get_json_tok_req Let_def)
  from bad calls
    csrf_gates_upstream [of "req_with None (Some (u ''tok'')) (Inr (JObject []))" env_key up_down]
    csrf_gates_upstream [of "tok_req (Inr (JObject []))" env_key up_down]
  show ?thesis by blast
qed

text \<open>
  C3. When the API key is missing (unset or empty) and the CSRF verification has passed,
  each of the three model-backed handlers returns the status 500 with the body
  \<^verbatim>\<open>{"error": "API key missing"}\<close>, whatever the body of the request is (even one that
  \<^verbatim>\<open>get_json\<close> rejects, and before the empty-coach and empty-area shortcuts), and makes no
  upstream call.
\<close>

theorem api_key_missing:
  assumes "verify_csrf req" and "\<not> truthy (OPENAI_API_KEY e)"
  shows "get_areas e up req = (Returns api_key_error, [])
       \<and> chat e up req = (Returns api_key_error, [])
       \<and> check_area e up req = (Returns api_key_error, [])
       \<and> status api_key_error = 500
       \<and> payload api_key_error = Json (JObject [(u ''error'', JString (u ''API key missing''))])"
  using assms
  by (simp add: get_areas_def chat_def check_area_def api_key_error_def jsonify_def)

theorem api_key_missing_witness:
  "verify_csrf (tok_req (Inr (JObject [(u ''coach'', JString [])])))
   \<and> \<not> truthy (OPENAI_API_KEY Map.empty)
   \<and> get_areas Map.empty up_down (tok_req (Inr (JObject [(u ''coach'', JString [])])))
       = (Returns api_key_error, [])
   \<and> chat Map.empty up_down (tok_req (Inr (JObject [(u ''coach'', JString [])])))
       = (Returns api_key_error, [])
   \<and> check_area Map.empty up_down (tok_req (Inr (JObject [(u ''coach'', JString [])])))
       = (Returns api_key_error, [])"
  using api_key_missing [of "tok_req (Inr (JObject [(u ''coach'', JString [])]))" Map.empty up_down]
        tok_req_ok no_key
  by simp

section \<open>Blank and ill-typed fields\<close>

text \<open>
  C4. A request to \<^verbatim>\<open>/api/areas\<close> that passes the CSRF and API-key gates and whose
  \<^verbatim>\<open>coach\<close> field is a string made of whitespace only (the empty string included) is
  answered with the status 200 and the body \<^verbatim>\<open>{"areas": []}\<close>, and no upstream call is
  made.
\<close>

theorem blank_coach_no_upstream:
  assumes "verify_csrf req" and "truthy (OPENAI_API_KEY e)"
    and "get_json req = Inr (JObject kvs)"
    and "map_of kvs (u ''coach'') = Some (JString s)"
    and "list_all isspace s"
  shows "get_areas e up req = (Returns (areas_response []), [])
       \<and> status (areas_response []) = 200
       \<and> payload (areas_response []) = Json (JObject [(u ''areas'', JArray [])])"
proof -
  from assms(5) have "strip s = []" by (simp add: strip_Nil_iff)
  with assms(1-4) show ?thesis
    by (simp add: get_areas_def areas_response_def jsonify_def)
qed

theorem blank_coach_no_upstream_witness:
  "verify_csrf (tok_req (Inr (JObject [(u ''coach'', JString [32, 9, 10, 160, 8195])])))
   \<and> truthy (OPENAI_API_KEY env_key)
   \<and> get_json (tok_req (Inr (JObject [(u ''coach'', JString [32, 9, 10, 160, 8195])])))
       = Inr (JObject [(u ''coach'', JString [32, 9, 10, 160, 8195])])
   \<and> map_of [(u ''coach'', JString [32, 9, 10, 160, 8195])] (u ''coach'') = Some (JString [32, 9, 10, 160, 8195])
   \<and> list_all isspace [32, 9, 10, 160, 8195]
   \<and> get_areas env_key (up_content (u ''x''))
        (tok_req (Inr (JObject [(u ''coach'', JString [32, 9, 10, 160, 8195])])))
       = (Returns (areas_response []), [])"
proof -
  have sp: "list_all isspace [32, 9, 10, 160, 8195]" by (simp add: isspace_def)
  have m: "map_of [(u ''coach'', JString [32, 9, 10, 160, 8195])] (u ''coach'') = Some (JString [32, 9, 10, 160, 8195])"
    by simp
  from blank_coach_no_upstream [OF tok_req_ok env_key_ok get_json_tok_req m sp]
    tok_req_ok env_key_ok get_json_tok_req m sp
  show ?thesis by blast
qed

text \<open>
  C7. A request to \<^verbatim>\<open>/api/check_area\<close> that passes the CSRF and API-key gates and whose
  \<^verbatim>\<open>area\<close> field is a string that stripping empties (the empty string, or whitespace
  only) is answered with the status 200 and the body
  \<^verbatim>\<open>{"safe": false, "reason": "No area provided"}\<close>, and no upstream call is made.
\<close>

theorem blank_area_no_upstream:
  assumes "verify_csrf req" and "truthy (OPENAI_API_KEY e)"
    and "get_json req = Inr (JObject kvs)"
    and "map_of kvs (u ''area'') = Some (JString s)"
    and "list_all isspace s"
  shows "check_area e up req = (Returns (jsonify no_area 200), [])
       \<and> status (jsonify no_area 200) = 200
       \<and> payload (jsonify no_area 200)
           = Json (JObject [(u ''safe'', JBool False), (u ''reason'', JString (u ''No area provided''))])"
proof -
  from assms(5) have "strip s = []" by (simp add: strip_Nil_iff)
  with assms(1-4) show ?thesis
    by (simp add: check_area_def no_area_def jsonify_def)
qed

theorem blank_area_no_upstream_witness:
  "verify_csrf (tok_req (Inr (JObject [(u ''area'', JString [])])))
   \<and> truthy (OPENAI_API_KEY env_key)
   \<and> get_json (tok_req (Inr (JObject [(u ''area'', JString [])]))) = Inr (JObject [(u ''area'', JString [])])
   \<and> map_of [(u ''area'', JString [])] (u ''area'') = Some (JString [])
   \<and> list_all isspace []
   \<and> check_area env_key (up_content (u ''x'')) (tok_req (Inr (JObject [(u ''area'', JString [])])))
       = (Returns (jsonify no_area 200), [])"
proof -
  have st: "list_all isspace []" by simp
  have m: "map_of [(u ''area'', JString [])] (u ''area'') = Some (JString [])" by simp
  from blank_area_no_upstream [OF tok_req_ok env_key_ok get_json_tok_req m st]
    tok_req_ok env_key_ok get_json_tok_req m st
  show ?thesis by blast
qed

text \<open>
  C10. A request that passes the CSRF and API-key gates and whose JSON body is an object
  with a \<^verbatim>\<open>coach\<close> field (for \<^verbatim>\<open>/api/areas\<close>) or an \<^verbatim>\<open>area\<close> field (for
  \<^verbatim>\<open>/api/check_area\<close>) that is not a string makes the handler raise
  \<^verbatim>\<open>AttributeError\<close>: no response is returned, and no upstream call is made. The body
  \<^verbatim>\<open>{"coach": 5}\<close> is such a body.
\<close>

theorem non_string_field_raises:
  assumes "verify_csrf req" and "truthy (OPENAI_API_KEY e)"
    and "get_json req = Inr (JObject kvs)"
    and "\<forall>s. v \<noteq> JString s"
  shows "(map_of kvs (u ''coach'') = Some v \<longrightarrow> get_areas e up req = (Raises AttributeError, []))
       \<and> (map_of kvs (u ''area'') = Some v \<longrightarrow> check_area e up req = (Raises AttributeError, []))"
proof -
  from assms(4) have "str_strip v = Inl AttributeError" by (cases v) auto
  with assms(1-3) show ?thesis by (simp add: get_areas_def check_area_def)
qed

theorem non_string_field_raises_witness:
  "verify_csrf (tok_req (Inr (JObject [(u ''coach'', JInt 5), (u ''area'', JInt 5)])))
   \<and> truthy (OPENAI_API_KEY env_key)
   \<and> (\<forall>s. JInt 5 \<noteq> JString s)
   \<and> map_of [(u ''coach'', JInt 5), (u ''area'', JInt 5)] (u ''coach'') = Some (JInt 5)
   \<and> map_of [(u ''coach'', JInt 5), (u ''area'', JInt 5)] (u ''area'') = Some (JInt 5)
   \<and> get_areas env_key up_down (tok_req (Inr (JObject [(u ''coach'', JInt 5), (u ''area'', JInt 5)])))
       = (Raises AttributeError, [])
   \<and> check_area env_key up_down (tok_req (Inr (JObject [(u ''coach'', JInt 5), (u ''area'', JInt 5)])))
       = (Raises AttributeError, [])"
proof -
  have ns: "\<forall>s. JInt 5 \<noteq> JString s" by simp
  have m1: "map_of [(u ''coach'', JInt 5), (u ''area'', JInt 5)] (u ''coach'') = Some (JInt 5)"
    by simp
  have m2: "map_of [(u ''coach'', JInt 5), (u ''area'', JInt 5)] (u ''area'') = Some (JInt 5)"
    by (simp add: u_def ord_def)
  from non_string_field_raises [OF tok_req_ok env_key_ok get_json_tok_req ns, of _ up_down]
    tok_req_ok env_key_ok ns m1 m2
  show ?thesis by blast
qed

section \<open>The chat relay\<close>

text \<open>
  C8 (as the code has it). A request to \<^verbatim>\<open>/api/chat\<close> that passes the CSRF and
  API-key gates and whose body is a JSON object makes exactly one upstream call. Its payload holds the configured
  model, the caller's \<^verbatim>\<open>messages\<close> value as it came (\<^verbatim>\<open>null\<close> when there is none),
  \<^verbatim>\<open>max_tokens\<close> equal to the caller's value, or 800 when the key is omitted, and
  \<^verbatim>\<open>temperature\<close> equal to the caller's value, or 0.2 when the key is omitted. When the
  upstream answers a JSON body, the response is that body, whole and unchanged, with the
  status 200; when the call raises, the response is the status 500 with the error.
\<close>

theorem chat_relays_verbatim:
  assumes "verify_csrf req" and "truthy (OPENAI_API_KEY e)"
    and "get_json req = Inr (JObject kvs)"
    and "c = \<lparr> url = u ''https://api.openai.com/v1/chat/completions'',
                call_headers = [(u ''Authorization'', u ''Bearer '' @ fmt (OPENAI_API_KEY e)),
                                (u ''Content-Type'', u ''application/json'')],
                call_json = JObject
                  [(u ''model'', JString (OPENAI_MODEL e)),
                   (u ''messages'', case map_of kvs (u ''messages'') of None \<Rightarrow> JNull | Some m \<Rightarrow> m),
                   (u ''max_tokens'', case map_of kvs (u ''max_tokens'') of None \<Rightarrow> JInt 800 | Some n \<Rightarrow> n),
                   (u ''temperature'',
                      case map_of kvs (u ''temperature'') of None \<Rightarrow> JFloat (u ''0.2'') | Some t \<Rightarrow> t)] \<rparr>"
  shows "snd (chat e up req) = [c]
       \<and> (\<forall>j. up c = Inr j \<longrightarrow>
              fst (chat e up req) = Returns \<lparr> status = 200, payload = Json j, set_cookies = [] \<rparr>)
       \<and> (\<forall>ex. up c = Inl ex \<longrightarrow>
              fst (chat e up req) = Returns \<lparr> status = 500, payload = ErrorOf ex, set_cookies = [] \<rparr>)"
proof -
  have c: "completion_call e (case map_of kvs (u ''messages'') of None \<Rightarrow> JNull | Some m \<Rightarrow> m)
             (case map_of kvs (u ''max_tokens'') of None \<Rightarrow> JInt 800 | Some n \<Rightarrow> n)
             (case map_of kvs (u ''temperature'') of None \<Rightarrow> JFloat (u ''0.2'') | Some t \<Rightarrow> t) = c"
    by (simp add: completion_call_def assms(4))
  have ch: "chat e up req =
      (case up c of Inl ex \<Rightarrow> Returns (exception_error ex) | Inr j \<Rightarrow> Returns (jsonify j 200), [c])"
    using assms(1-3) by (simp add: chat_def c)
  show ?thesis
    by (simp add: ch jsonify_def exception_error_def)
qed

theorem chat_relays_verbatim_witness:
  "verify_csrf (tok_req (Inr chat_body))
   \<and> truthy (OPENAI_API_KEY env_key)
   \<and> get_json (tok_req (Inr chat_body)) = Inr chat_body
   \<and> snd (chat env_key (up_content (u ''Hello'')) (tok_req (Inr chat_body))) = [chat_call]
   \<and> up_content (u ''Hello'') chat_call = Inr (JObject [(u ''choices'',
                JArray [JObject [(u ''message'',
                  JObject [(u ''role'', JString (u ''assistant'')), (u ''content'', JString (u ''Hello''))])]])])
   \<and> fst (chat env_key (up_content (u ''Hello'')) (tok_req (Inr chat_body)))
       = Returns \<lparr> status = 200,
                   payload = Json (JObject [(u ''choices'',
                     JArray [JObject [(u ''message'',
                       JObject [(u ''role'', JString (u ''assistant'')), (u ''content'', JString (u ''Hello''))])]])]),
                   set_cookies = [] \<rparr>
   \<and> up_down chat_call = Inl (RequestException (u ''connection refused''))
   \<and> fst (chat env_key up_down (tok_req (Inr chat_body)))
       = Returns \<lparr> status = 500, payload = ErrorOf (RequestException (u ''connection refused'')),
                   set_cookies = [] \<rparr>"
proof -
  have k: "OPENAI_API_KEY env_key = Some (u ''sk-test'')"
    by (simp add: OPENAI_API_KEY_def env_key_def)
  have m: "OPENAI_MODEL env_key = u ''gpt-3.5-turbo''"
    by (simp add: OPENAI_MODEL_def getenv_def env_key_def u_eq_iff)
  have c: "chat_call = \<lparr> url = u ''https://api.openai.com/v1/chat/completions'',
                call_headers = [(u ''Authorization'', u ''Bearer '' @ fmt (OPENAI_API_KEY env_key)),
                                (u ''Content-Type'', u ''application/json'')],
                call_json = JObject
                  [(u ''model'', JString (OPENAI_MODEL env_key)),
                   (u ''messages'', case map_of [(u ''messages'', JArray [message (u ''user'') (u ''Hi'')]), (u ''max_tokens'', JInt 50)] (u ''messages'') of None \<Rightarrow> JNull | Some m \<Rightarrow> m),
                   (u ''max_tokens'', case map_of [(u ''messages'', JArray [message (u ''user'') (u ''Hi'')]), (u ''max_tokens'', JInt 50)] (u ''max_tokens'') of None \<Rightarrow> JInt 800 | Some n \<Rightarrow> n),
                   (u ''temperature'',
                      case map_of [(u ''messages'', JArray [message (u ''user'') (u ''Hi'')]), (u ''max_tokens'', JInt 50)] (u ''temperature'') of None \<Rightarrow> JFloat (u ''0.2'') | Some t \<Rightarrow> t)] \<rparr>"
    by (simp add: chat_call_def k m fmt_def u_eq_iff) (simp add: u_def)
  have g: "get_json (tok_req (Inr chat_body)) = Inr (JObject [(u ''messages'', JArray [message (u ''user'') (u ''Hi'')]), (u ''max_tokens'', JInt 50)])"
    by (simp add: get_json_tok_req chat_body_def)
  have u1: "up_content (u ''Hello'') chat_call = Inr (JObject [(u ''choices'',
                JArray [JObject [(u ''message'',
                  JObject [(u ''role'', JString (u ''assistant'')), (u ''content'', JString (u ''Hello''))])]])])"
    by (simp add: up_content_def)
  have u2: "up_down chat_call = Inl (RequestException (u ''connection refused''))"
    by (simp add: up_down_def)
  from chat_relays_verbatim [OF tok_req_ok env_key_ok g c, of "up_content (u ''Hello'')"]
       chat_relays_verbatim [OF tok_req_ok env_key_ok g c, of up_down]
       tok_req_ok env_key_ok get_json_tok_req u1 u2
  show ?thesis by simp
qed

text \<open>
  The claim as stated fails for a request that passes both gates and whose body is not a
  JSON object: with the body \<^verbatim>\<open>null\<close>, \<^verbatim>\<open>data.get\<close> raises \<^verbatim>\<open>AttributeError\<close>
  before the \<^verbatim>\<open>try\<close>, so the handler returns no response and makes no upstream call,
  although the upstream would have answered.
\<close>

theorem chat_null_body_counterexample:
  "verify_csrf (tok_req (Inr JNull))
   \<and> truthy (OPENAI_API_KEY env_key)
   \<and> chat env_key (up_content (u ''Hello'')) (tok_req (Inr JNull)) = (Raises AttributeError, [])"
  by (simp add: chat_def tok_req_ok env_key_ok get_json_tok_req)

section \<open>The CSRF cookie\<close>

text \<open>
  C9. \<open>ensure_csrf_cookie\<close>, called without a token as the pages do, reuses the cookie
  token of the inbound request when there is one (a non-empty one) and mints a new token
  otherwise. In every case it adds exactly one cookie to the response, named
  \<^verbatim>\<open>csrf-token\<close>, with max-age 604800 seconds (7 days), \<^verbatim>\<open>SameSite=Lax\<close>,
  \<^verbatim>\<open>HttpOnly\<close> off and \<^verbatim>\<open>Secure\<close> equal to the configuration value
  \<open>CSRF_COOKIE_SECURE\<close>, which is false when the variable is not set; the status, the
  body and the cookies already on the response stay as they were. The route
  \<^verbatim>\<open>/api/csrf\<close> follows the same rule and answers the token it sets (the minted
  tokens are never empty). So a request that
  carries a token is answered with that same token: it is not rotated.
\<close>

theorem ensure_csrf_cookie_reuses_token:
  "(cookies req CSRF_COOKIE_NAME = Some t \<and> t \<noteq> [] \<longrightarrow>
      ensure_csrf_cookie e g req resp None
        = (resp\<lparr>set_cookies := set_cookies resp @
              [\<lparr> cookie_name = u ''csrf-token'', cookie_value = t, max_age = 604800,
                 samesite = u ''Lax'', secure = CSRF_COOKIE_SECURE e, httponly = False \<rparr>]\<rparr>, g)
    \<and> csrf_token e g req
        = (\<lparr> status = 200, payload = Json (JObject [(u ''token'', JString t)]),
             set_cookies =
              [\<lparr> cookie_name = u ''csrf-token'', cookie_value = t, max_age = 604800,
                 samesite = u ''Lax'', secure = CSRF_COOKIE_SECURE e, httponly = False \<rparr>] \<rparr>, g))
   \<and> (\<not> truthy (cookies req CSRF_COOKIE_NAME) \<longrightarrow>
      ensure_csrf_cookie e g req resp None
        = (resp\<lparr>set_cookies := set_cookies resp @
              [\<lparr> cookie_name = u ''csrf-token'', cookie_value = g 0, max_age = 604800,
                 samesite = u ''Lax'', secure = CSRF_COOKIE_SECURE e, httponly = False \<rparr>]\<rparr>,
           \<lambda>n. g (Suc n)))
   \<and> (\<not> truthy (cookies req CSRF_COOKIE_NAME) \<and> g 0 \<noteq> [] \<longrightarrow>
      csrf_token e g req
        = (\<lparr> status = 200, payload = Json (JObject [(u ''token'', JString (g 0))]),
             set_cookies =
              [\<lparr> cookie_name = u ''csrf-token'', cookie_value = g 0, max_age = 604800,
                 samesite = u ''Lax'', secure = CSRF_COOKIE_SECURE e, httponly = False \<rparr>] \<rparr>,
           \<lambda>n. g (Suc n)))
   \<and> status (fst (ensure_csrf_cookie e g req resp None)) = status resp
   \<and> payload (fst (ensure_csrf_cookie e g req resp None)) = payload resp
   \<and> butlast (set_cookies (fst (ensure_csrf_cookie e g req resp None))) = set_cookies resp
   \<and> (e (u ''CSRF_COOKIE_SECURE'') = None \<longrightarrow> \<not> CSRF_COOKIE_SECURE e)"
proof (intro conjI impI)
  assume "cookies req CSRF_COOKIE_NAME = Some t \<and> t \<noteq> []"
  then show "ensure_csrf_cookie e g req resp None
        = (resp\<lparr>set_cookies := set_cookies resp @
              [\<lparr> cookie_name = u ''csrf-token'', cookie_value = t, max_age = 604800,
                 samesite = u ''Lax'', secure = CSRF_COOKIE_SECURE e, httponly = False \<rparr>]\<rparr>, g)"
    by (simp add: ensure_csrf_cookie_def py_or_def set_cookie_def csrf_cookie_def CSRF_COOKIE_NAME_def)
next
  assume "cookies req CSRF_COOKIE_NAME = Some t \<and> t \<noteq> []"
  then show "csrf_token e g req
        = (\<lparr> status = 200, payload = Json (JObject [(u ''token'', JString t)]),
             set_cookies =
              [\<lparr> cookie_name = u ''csrf-token'', cookie_value = t, max_age = 604800,
                 samesite = u ''Lax'', secure = CSRF_COOKIE_SECURE e, httponly = False \<rparr>] \<rparr>, g)"
    by (simp add: csrf_token_def ensure_csrf_cookie_def py_or_def set_cookie_def csrf_cookie_def
                  jsonify_def CSRF_COOKIE_NAME_def)
next
  assume "\<not> truthy (cookies req CSRF_COOKIE_NAME)"
  then show "ensure_csrf_cookie e g req resp None
        = (resp\<lparr>set_cookies := set_cookies resp @
              [\<lparr> cookie_name = u ''csrf-token'', cookie_value = g 0, max_age = 604800,
                 samesite = u ''Lax'', secure = CSRF_COOKIE_SECURE e, httponly = False \<rparr>]\<rparr>,
           \<lambda>n. g (Suc n))"
    by (cases "cookies req CSRF_COOKIE_NAME")
       (simp_all add: ensure_csrf_cookie_def py_or_def set_cookie_def csrf_cookie_def
                      new_csrf_token_def CSRF_COOKIE_NAME_def)
next
  assume "\<not> truthy (cookies req CSRF_COOKIE_NAME) \<and> g 0 \<noteq> []"
  then show "csrf_token e g req
        = (\<lparr> status = 200, payload = Json (JObject [(u ''token'', JString (g 0))]),
             set_cookies =
              [\<lparr> cookie_name = u ''csrf-token'', cookie_value = g 0, max_age = 604800,
                 samesite = u ''Lax'', secure = CSRF_COOKIE_SECURE e, httponly = False \<rparr>] \<rparr>,
           \<lambda>n. g (Suc n))"
    by (simp add: csrf_token_def ensure_csrf_cookie_def py_or_def set_cookie_def csrf_cookie_def
                  jsonify_def new_csrf_token_def CSRF_COOKIE_NAME_def)
next
  show "status (fst (ensure_csrf_cookie e g req resp None)) = status resp"
    by (simp add: ensure_csrf_cookie_def set_cookie_def new_csrf_token_def
             split: option.splits)
next
  show "payload (fst (ensure_csrf_cookie e g req resp None)) = payload resp"
    by (simp add: ensure_csrf_cookie_def set_cookie_def new_csrf_token_def
             split: option.splits)
next
  show "butlast (set_cookies (fst (ensure_csrf_cookie e g req resp None))) = set_cookies resp"
    by (simp add: ensure_csrf_cookie_def set_cookie_def new_csrf_token_def
             split: option.splits)
next
  assume "e (u ''CSRF_COOKIE_SECURE'') = None"
  then show "\<not> CSRF_COOKIE_SECURE e"
    by (simp add: CSRF_COOKIE_SECURE_def getenv_def lower_def lower_cp_def u_def ord_def)
qed

theorem ensure_csrf_cookie_reuses_token_witness:
  "cookies (req_with (Some (u ''tok'')) None (Inr JNull)) CSRF_COOKIE_NAME = Some (u ''tok'')
   \<and> u ''tok'' \<noteq> []
   \<and> fst (ensure_csrf_cookie Map.empty (\<lambda>n. u ''new'') (req_with (Some (u ''tok'')) None (Inr JNull))
            \<lparr> status = 200, payload = Content (u ''page''), set_cookies = [] \<rparr> None)
       = \<lparr> status = 200, payload = Content (u ''page''),
           set_cookies = [\<lparr> cookie_name = u ''csrf-token'', cookie_value = u ''tok'', max_age = 604800,
                            samesite = u ''Lax'', secure = False, httponly = False \<rparr>] \<rparr>
   \<and> \<not> truthy (cookies (req_with None None (Inr JNull)) CSRF_COOKIE_NAME)
   \<and> fst (ensure_csrf_cookie Map.empty (\<lambda>n. u ''new'') (req_with None None (Inr JNull))
            \<lparr> status = 200, payload = Content (u ''page''), set_cookies = [] \<rparr> None)
       = \<lparr> status = 200, payload = Content (u ''page''),
           set_cookies = [\<lparr> cookie_name = u ''csrf-token'', cookie_value = u ''new'', max_age = 604800,
                            samesite = u ''Lax'', secure = False, httponly = False \<rparr>] \<rparr>
   \<and> u ''new'' \<noteq> []
   \<and> fst (csrf_token Map.empty (\<lambda>n. u ''new'') (req_with None None (Inr JNull)))
       = \<lparr> status = 200, payload = Json (JObject [(u ''token'', JString (u ''new''))]),
           set_cookies = [\<lparr> cookie_name = u ''csrf-token'', cookie_value = u ''new'', max_age = 604800,
                            samesite = u ''Lax'', secure = False, httponly = False \<rparr>] \<rparr>
   \<and> (Map.empty :: env) (u ''CSRF_COOKIE_SECURE'') = None
   \<and> \<not> CSRF_COOKIE_SECURE Map.empty"
proof -
  have c1: "cookies (req_with (Some (u ''tok'')) None (Inr JNull)) CSRF_COOKIE_NAME = Some (u ''tok'')"
    and c2: "\<not> truthy (cookies (req_with None None (Inr JNull)) CSRF_COOKIE_NAME)"
    and ne: "u ''tok'' \<noteq> []" "u ''new'' \<noteq> []"
    by (simp_all add: req_with_def u_def)
  from c1 c2 ne
    ensure_csrf_cookie_reuses_token
      [of "req_with (Some (u ''tok'')) None (Inr JNull)" "u ''tok''" Map.empty "\<lambda>n. u ''new''"
          "\<lparr> status = 200, payload = Content (u ''page''), set_cookies = [] \<rparr>"]
    ensure_csrf_cookie_reuses_token
      [of "req_with None None (Inr JNull)" "u ''tok''" Map.empty "\<lambda>n. u ''new''"
          "\<lparr> status = 200, payload = Content (u ''page''), set_cookies = [] \<rparr>"]
  show ?thesis by simp
qed

section \<open>The extraction of the areas\<close>



section \<open>The safety result\<close>

text \<open>
  C6 (as the code has it). The safety result is the decoded content itself whenever the
  content decodes to a JSON object that has the key \<^verbatim>\<open>safe\<close>, whatever the type of
  its value; it is the negative default
  \<^verbatim>\<open>{"safe": false, "reason": "Could not verify area safety"}\<close> when the content does not
  decode, decodes to a value that is no object, or decodes to an object without the key
  \<^verbatim>\<open>safe\<close>. The endpoint answers this result with the status 200.
\<close>

theorem safety_result_needs_only_the_key:
  "(json_loads s = Some (JObject kvs) \<and> map_of kvs (u ''safe'') = Some v \<longrightarrow>
      safety_result (JString s) = JObject kvs)
   \<and> (json_loads s = Some (JObject kvs) \<and> map_of kvs (u ''safe'') = None \<longrightarrow>
      safety_result (JString s) = could_not_verify)
   \<and> (json_loads s = Some w \<and> (\<forall>ps. w \<noteq> JObject ps) \<longrightarrow>
      safety_result (JString s) = could_not_verify)
   \<and> (json_loads s = None \<longrightarrow> safety_result (JString s) = could_not_verify)
   \<and> (verify_csrf req \<and> truthy (OPENAI_API_KEY e) \<and> get_json req = Inr (JObject body)
        \<and> map_of body (u ''area'') = Some (JString a) \<and> strip a \<noteq> []
        \<and> up (completion_call e (check_area_prompt (strip a)) (JInt 60) (JFloat (u ''0.0''))) = Inr j
        \<and> message_content j = Inr content \<longrightarrow>
      fst (check_area e up req) = Returns (jsonify (safety_result content) 200))
   \<and> could_not_verify
       = JObject [(u ''safe'', JBool False), (u ''reason'', JString (u ''Could not verify area safety''))]"
proof (intro conjI impI)
  assume "json_loads s = Some (JObject kvs) \<and> map_of kvs (u ''safe'') = Some v"
  then show "safety_result (JString s) = JObject kvs"
    by (simp add: safety_result_def safe_key_iff)
next
  assume "json_loads s = Some (JObject kvs) \<and> map_of kvs (u ''safe'') = None"
  then show "safety_result (JString s) = could_not_verify"
    by (simp add: safety_result_def safe_key_iff)
next
  assume "json_loads s = Some w \<and> (\<forall>ps. w \<noteq> JObject ps)"
  then show "safety_result (JString s) = could_not_verify"
    by (cases w) (simp_all add: safety_result_def)
next
  assume "json_loads s = None"
  then show "safety_result (JString s) = could_not_verify"
    by (simp add: safety_result_def)
next
  assume "verify_csrf req \<and> truthy (OPENAI_API_KEY e) \<and> get_json req = Inr (JObject body)
        \<and> map_of body (u ''area'') = Some (JString a) \<and> strip a \<noteq> []
        \<and> up (completion_call e (check_area_prompt (strip a)) (JInt 60) (JFloat (u ''0.0''))) = Inr j
        \<and> message_content j = Inr content"
  then show "fst (check_area e up req) = Returns (jsonify (safety_result content) 200)"
    by (simp add: check_area_def Let_def)
next
  show "could_not_verify
       = JObject [(u ''safe'', JBool False), (u ''reason'', JString (u ''Could not verify area safety''))]"
    by (simp add: could_not_verify_def)
qed

theorem safety_result_needs_only_the_key_witness:
  \<open>json_loads (u ''{"safe": "yes"}'') = Some (JObject [(u ''safe'', JString (u ''yes''))])
   \<and> map_of [(u ''safe'', JString (u ''yes''))] (u ''safe'') = Some (JString (u ''yes''))
   \<and> safety_result (JString (u ''{"safe": "yes"}'')) = JObject [(u ''safe'', JString (u ''yes''))]
   \<and> json_loads (u ''{"ok": true}'') = Some (JObject [(u ''ok'', JBool True)])
   \<and> map_of [(u ''ok'', JBool True)] (u ''safe'') = None
   \<and> safety_result (JString (u ''{"ok": true}'')) = could_not_verify
   \<and> json_loads (u ''true'') = Some (JBool True)
   \<and> (\<forall>ps. JBool True \<noteq> JObject ps)
   \<and> safety_result (JString (u ''true'')) = could_not_verify
   \<and> json_loads (u ''I cannot help with that.'') = None
   \<and> safety_result (JString (u ''I cannot help with that.'')) = could_not_verify
   \<and> verify_csrf (tok_req (Inr (JObject [(u ''area'', JString (u ''law''))])))
   \<and> truthy (OPENAI_API_KEY env_key)
   \<and> get_json (tok_req (Inr (JObject [(u ''area'', JString (u ''law''))])))
       = Inr (JObject [(u ''area'', JString (u ''law''))])
   \<and> map_of [(u ''area'', JString (u ''law''))] (u ''area'') = Some (JString (u ''law''))
   \<and> strip (u ''law'') \<noteq> []
   \<and> fst (check_area env_key (up_content (u ''{"safe": true}''))
             (tok_req (Inr (JObject [(u ''area'', JString (u ''law''))]))))
       = Returns (jsonify (safety_result (JString (u ''{"safe": true}''))) 200)\<close>
proof -
  have l1: \<open>json_loads (u ''{"safe": "yes"}'') = Some (JObject [(u ''safe'', JString (u ''yes''))])\<close>
    by (simp add: json_loads_def u_def ord_def skip_ws_def is_ws_def prepend_def dict_set_def)
  have m1: \<open>map_of [(u ''safe'', JString (u ''yes''))] (u ''safe'') = Some (JString (u ''yes''))\<close>
    by simp
  have l2: \<open>json_loads (u ''{"ok": true}'') = Some (JObject [(u ''ok'', JBool True)])\<close>
    by (simp add: json_loads_def u_def ord_def skip_ws_def is_ws_def prepend_def dict_set_def)
  have m2: \<open>map_of [(u ''ok'', JBool True)] (u ''safe'') = None\<close>
    by (simp add: u_eq_iff)
  have l3: \<open>json_loads (u ''true'') = Some (JBool True)\<close>
    by (simp add: json_loads_def u_def ord_def skip_ws_def is_ws_def)
  have n3: \<open>\<forall>ps. JBool True \<noteq> JObject ps\<close>
    by simp
  have l4: \<open>json_loads (u ''I cannot help with that.'') = None\<close>
    by (simp add: json_loads_def u_def ord_def skip_ws_def is_ws_def match_number_def)
  have m5: \<open>map_of [(u ''area'', JString (u ''law''))] (u ''area'') = Some (JString (u ''law''))\<close>
    by simp
  have s5: \<open>strip (u ''law'') \<noteq> []\<close>
    by (simp add: strip_tok) (simp add: u_def)
  obtain j where u5: \<open>up_content (u ''{"safe": true}'')
            (completion_call env_key (check_area_prompt (strip (u ''law''))) (JInt 60) (JFloat (u ''0.0'')))
          = Inr j\<close>
    by (simp add: up_content_def)
  have c5: \<open>message_content j = Inr (JString (u ''{"safe": true}''))\<close>
    using u5 by (rule message_content_up_content)
  note t = safety_result_needs_only_the_key
  from l1 m1 t [of \<open>u ''{"safe": "yes"}''\<close> \<open>[(u ''safe'', JString (u ''yes''))]\<close> \<open>JString (u ''yes'')\<close>]
  have r1: \<open>safety_result (JString (u ''{"safe": "yes"}'')) = JObject [(u ''safe'', JString (u ''yes''))]\<close>
    by blast
  from l2 m2 t [of \<open>u ''{"ok": true}''\<close> \<open>[(u ''ok'', JBool True)]\<close>]
  have r2: \<open>safety_result (JString (u ''{"ok": true}'')) = could_not_verify\<close>
    by blast
  from l3 n3 t [of \<open>u ''true''\<close> _ _ \<open>JBool True\<close>]
  have r3: \<open>safety_result (JString (u ''true'')) = could_not_verify\<close>
    by blast
  from l4 t [of \<open>u ''I cannot help with that.''\<close>]
  have r4: \<open>safety_result (JString (u ''I cannot help with that.'')) = could_not_verify\<close>
    by blast
  from tok_req_ok env_key_ok get_json_tok_req m5 s5 u5 c5
    t [of _ _ _ _ \<open>tok_req (Inr (JObject [(u ''area'', JString (u ''law''))]))\<close> env_key
          \<open>[(u ''area'', JString (u ''law''))]\<close> \<open>u ''law''\<close> \<open>up_content (u ''{"safe": true}'')\<close> j
          \<open>JString (u ''{"safe": true}'')\<close>]
  have r5: \<open>fst (check_area env_key (up_content (u ''{"safe": true}''))
             (tok_req (Inr (JObject [(u ''area'', JString (u ''law''))]))))
       = Returns (jsonify (safety_result (JString (u ''{"safe": true}''))) 200)\<close>
    by blast
  from l1 m1 r1 l2 m2 r2 l3 n3 r3 l4 r4 tok_req_ok env_key_ok get_json_tok_req m5 s5 r5
  show ?thesis by blast
qed

text \<open>
  The claim as stated fails: when the model answers \<^verbatim>\<open>{"safe": "yes"}\<close>, the endpoint
  responds with that very object, whose \<^verbatim>\<open>safe\<close> value is a string, and not with the
  negative default.
\<close>

theorem check_area_mistyped_safe_counterexample:
  \<open>fst (check_area env_key (up_content (u ''{"safe": "yes"}''))
          (tok_req (Inr (JObject [(u ''area'', JString (u ''law''))]))))
     = Returns \<lparr> status = 200, payload = Json (JObject [(u ''safe'', JString (u ''yes''))]),
                 set_cookies = [] \<rparr>
   \<and> JObject [(u ''safe'', JString (u ''yes''))] \<noteq> could_not_verify\<close>
proof -
  have l: \<open>json_loads (u ''{"safe": "yes"}'') = Some (JObject [(u ''safe'', JString (u ''yes''))])\<close>
    by (simp add: json_loads_def u_def ord_def skip_ws_def is_ws_def prepend_def dict_set_def)
  have r: \<open>safety_result (JString (u ''{"safe": "yes"}'')) = JObject [(u ''safe'', JString (u ''yes''))]\<close>
    by (simp add: safety_result_def l)
  have s: \<open>strip (u ''law'') \<noteq> []\<close>
    by (simp add: strip_tok) (simp add: u_def)
  have m: \<open>message_content (JObject [(u ''choices'',
                JArray [JObject [(u ''message'',
                  JObject [(u ''role'', JString (u ''assistant'')), (u ''content'', JString (u ''{"safe": "yes"}''))])]])])
            = Inr (JString (u ''{"safe": "yes"}''))\<close>
    by (simp add: message_content_def u_eq_iff)
  have \<open>fst (check_area env_key (up_content (u ''{"safe": "yes"}''))
          (tok_req (Inr (JObject [(u ''area'', JString (u ''law''))]))))
     = Returns (jsonify (safety_result (JString (u ''{"safe": "yes"}''))) 200)\<close>
    using s by (simp add: check_area_def tok_req_ok env_key_ok get_json_tok_req Let_def up_content_def m)
  then show ?thesis
    by (simp add: r jsonify_def could_not_verify_def)
qed

end
